theory Spec2Isabelle
  imports Main
begin

section \<open>JavaScript values, objects and the heap\<close>

text \<open>
  The package \<^verbatim>\<open>js-errors\<close> is one class, \<^verbatim>\<open>BaseError extends Error\<close>, with the
  methods \<^verbatim>\<open>toString\<close>, \<^verbatim>\<open>toJSON\<close> and the static \<^verbatim>\<open>fromCatch(error: any)\<close>. Its code
  is a handful of host operations (\<^verbatim>\<open>instanceof\<close>, \<^verbatim>\<open>in\<close>, property reads,
  \<^verbatim>\<open>Object.entries\<close>, object spread, \<^verbatim>\<open>JSON.stringify\<close>, template literals and the
  \<^verbatim>\<open>Error\<close> constructor), so the embedding starts with the part of ECMAScript those
  operations read.

  A value is a primitive or a reference into the heap. A finite number is kept as the
  text \<^verbatim>\<open>Number::toString\<close> gives it (\<^verbatim>\<open>500\<close>, \<^verbatim>\<open>0.5\<close>, \<^verbatim>\<open>1e+21\<close>): the code below
  never computes with a number, it only prints it, and two doubles are equal exactly when
  their texts are (\<^verbatim>\<open>-0\<close> apart, which prints as \<^verbatim>\<open>0\<close>). Strings are lists of 8-bit
  characters.
\<close>

type_synonym addr = nat

datatype jsnum = Finite string | NaN | PosInf | NegInf

datatype jsval =
    Undefined
  | Null
  | Bool bool
  | Num jsnum
  | Str string
  | Symbol nat
  | BigInt int
  | Ref addr

text \<open>A property key is a string or a symbol; a property holds a value and its
  \<^verbatim>\<open>[[Enumerable]]\<close> attribute. Only data properties are modelled: no accessor and no
  proxy, so reading a property runs no user code. (The user code that does run, a
  conversion to a string and a \<^verbatim>\<open>toJSON\<close> method, is introduced below.)\<close>

datatype propkey = Name string | Sym nat

record property =
  key :: propkey
  val :: jsval
  enumerable :: bool

text \<open>
  An object has its own properties, in the order \<^verbatim>\<open>[[OwnPropertyKeys]]\<close> lists them, and
  its prototype chain, nearest prototype first: the address of each prototype with the
  data properties it holds. JavaScript keeps every chain finite and free of cycles
  (\<^verbatim>\<open>[[SetPrototypeOf]]\<close> refuses a cycle), and none of the code below writes to a
  prototype. The one method the code below calls through a property is \<^verbatim>\<open>toJSON\<close>
  (\<^verbatim>\<open>JSON.stringify\<close> does): the chains hold the methods of the class and leave out the
  host's own, none of which is named \<^verbatim>\<open>toJSON\<close> on the prototypes modelled. \<open>callable\<close>
  marks a function object, \<open>isArray\<close> an array.
\<close>

record jsobj =
  own :: "property list"
  chain :: "(addr \<times> property list) list"
  callable :: bool
  isArray :: bool

type_synonym heap = "jsobj list"

text \<open>What a call throws: a \<open>TypeError\<close> of the host, told apart by what raised it; the
  host's \<open>RangeError\<close> for a recursion without end ("Maximum call stack size exceeded");
  or a value thrown by user code. \<open>NoSuchObject\<close> is no JavaScript outcome: it marks a
  reference that points outside the heap, which no program can hold, and keeps the model
  total.\<close>

datatype reason =
    InOperand
  | CircularStructure
  | BigIntJSON
  | SymbolToString
  | NullishToObject

datatype error = TypeError reason | RangeError | Thrown jsval | NoSuchObject addr

definition lookup :: "heap \<Rightarrow> addr \<Rightarrow> jsobj option" where
  "lookup h a = (if a < length h then Some (h ! a) else None)"

definition alloc :: "heap \<Rightarrow> jsobj \<Rightarrow> jsval \<times> heap" where
  "alloc h ob = (Ref (length h), h @ [ob])"

definition field :: "string \<Rightarrow> jsval \<Rightarrow> property" where
  "field k v = \<lparr>key = Name k, val = v, enumerable = True\<rparr>"

definition hidden :: "string \<Rightarrow> jsval \<Rightarrow> property" where
  "hidden k v = \<lparr>key = Name k, val = v, enumerable = False\<rparr>"

subsection \<open>The intrinsic objects\<close>

text \<open>The realm's prototypes sit at the first addresses of every heap a program runs in,
  followed by the two methods of the class, which are function objects.
  \<^verbatim>\<open>Error.prototype\<close> holds \<^verbatim>\<open>name = "Error"\<close> and \<^verbatim>\<open>message = ""\<close>, both
  non-enumerable; \<^verbatim>\<open>BaseError.prototype\<close> holds the two methods the class declares,
  \<^verbatim>\<open>toString\<close> and \<^verbatim>\<open>toJSON\<close>, non-enumerable as the methods of a class are. The
  \<^verbatim>\<open>constructor\<close> property of the prototypes is left out with the host's methods:
  nothing below reads it.\<close>

definition Object_prototype :: addr where "Object_prototype = 0"
definition Function_prototype :: addr where "Function_prototype = 1"
definition Array_prototype :: addr where "Array_prototype = 2"
definition Error_prototype :: addr where "Error_prototype = 3"
definition BaseError_prototype :: addr where "BaseError_prototype = 4"
definition BaseError_toString :: addr where "BaseError_toString = 5"
definition BaseError_toJSON :: addr where "BaseError_toJSON = 6"

definition Error_props :: "property list" where
  "Error_props = [hidden ''name'' (Str ''Error''), hidden ''message'' (Str '''')]"

definition BaseError_methods :: "property list" where
  "BaseError_methods =
     [hidden ''toString'' (Ref BaseError_toString), hidden ''toJSON'' (Ref BaseError_toJSON)]"

definition Object_chain :: "(addr \<times> property list) list" where
  "Object_chain = [(Object_prototype, [])]"

definition Function_chain :: "(addr \<times> property list) list" where
  "Function_chain =
     [(Function_prototype, [hidden ''length'' (Num (Finite ''0'')), hidden ''name'' (Str '''')]),
      (Object_prototype, [])]"

definition Array_chain :: "(addr \<times> property list) list" where
  "Array_chain = [(Array_prototype, [hidden ''length'' (Num (Finite ''0''))]), (Object_prototype, [])]"

definition Error_chain :: "(addr \<times> property list) list" where
  "Error_chain = [(Error_prototype, Error_props), (Object_prototype, [])]"

definition BaseError_chain :: "(addr \<times> property list) list" where
  "BaseError_chain = (BaseError_prototype, BaseError_methods) # Error_chain"

definition plain :: "property list \<Rightarrow> jsobj" where
  "plain ps = \<lparr>own = ps, chain = Object_chain, callable = False, isArray = False\<rparr>"

definition realm :: heap where
  "realm =
     [\<lparr>own = [], chain = [], callable = False, isArray = False\<rparr>,
      \<lparr>own = [hidden ''length'' (Num (Finite ''0'')), hidden ''name'' (Str '''')],
        chain = Object_chain, callable = True, isArray = False\<rparr>,
      \<lparr>own = [hidden ''length'' (Num (Finite ''0''))],
        chain = Object_chain, callable = False, isArray = True\<rparr>,
      \<lparr>own = Error_props, chain = Object_chain, callable = False, isArray = False\<rparr>,
      \<lparr>own = BaseError_methods, chain = Error_chain, callable = False, isArray = False\<rparr>,
      \<lparr>own = [hidden ''length'' (Num (Finite ''0'')), hidden ''name'' (Str ''toString'')],
        chain = Function_chain, callable = True, isArray = False\<rparr>,
      \<lparr>own = [hidden ''length'' (Num (Finite ''0'')), hidden ''name'' (Str ''toJSON'')],
        chain = Function_chain, callable = True, isArray = False\<rparr>]"

subsection \<open>Property access\<close>

fun findProp :: "propkey \<Rightarrow> property list \<Rightarrow> property option" where
  "findProp k [] = None"
| "findProp k (p # ps) = (if key p = k then Some p else findProp k ps)"

text \<open>\<^verbatim>\<open>[[HasProperty]]\<close>: own or inherited.\<close>

definition HasProperty :: "jsobj \<Rightarrow> propkey \<Rightarrow> bool" where
  "HasProperty ob k = list_ex (\<lambda>ps. findProp k ps \<noteq> None) (own ob # map snd (chain ob))"

fun GetChain :: "propkey \<Rightarrow> (addr \<times> property list) list \<Rightarrow> jsval" where
  "GetChain k [] = Undefined"
| "GetChain k ((a, ps) # c) = (case findProp k ps of Some p \<Rightarrow> val p | None \<Rightarrow> GetChain k c)"

text \<open>\<^verbatim>\<open>[[Get]]\<close>: the own property, else the nearest inherited one, else
  \<^verbatim>\<open>undefined\<close>.\<close>

definition Get :: "jsobj \<Rightarrow> propkey \<Rightarrow> jsval" where
  "Get ob k = (case findProp k (own ob) of Some p \<Rightarrow> val p | None \<Rightarrow> GetChain k (chain ob))"

text \<open>
  \<^verbatim>\<open>[[OwnPropertyKeys]]\<close> lists the array indices first, in ascending numeric order, then
  the other string keys in the order of their creation, then the symbols in the order of
  theirs. An array index is the canonical decimal text of an integer from 0 to
  \<^verbatim>\<open>4294967294\<close>: digits only, no leading zero, below \<^verbatim>\<open>4294967295\<close>. Two such texts
  compare as their numbers do: by length, then digit by digit.
\<close>

definition isDigit :: "char \<Rightarrow> bool" where
  "isDigit c = (c \<in> set ''0123456789'')"

definition digitValue :: "char \<Rightarrow> nat" where
  "digitValue c = length (takeWhile (\<lambda>d. d \<noteq> c) ''0123456789'')"

fun digitsLess :: "string \<Rightarrow> string \<Rightarrow> bool" where
  "digitsLess (c # cs) (d # ds) = (digitValue c < digitValue d \<or> (c = d \<and> digitsLess cs ds))"
| "digitsLess cs ds = False"

definition indexLess :: "string \<Rightarrow> string \<Rightarrow> bool" where
  "indexLess s t = (length s < length t \<or> (length s = length t \<and> digitsLess s t))"

fun isArrayIndex :: "string \<Rightarrow> bool" where
  "isArrayIndex [] = False"
| "isArrayIndex (c # cs) =
     (list_all isDigit (c # cs) \<and> (cs = [] \<or> c \<noteq> CHR ''0'')
      \<and> indexLess (c # cs) ''4294967295'')"

text \<open>\<open>precedes k k'\<close>: a new key \<open>k\<close> is listed before the existing key \<open>k'\<close>.\<close>

fun precedes :: "propkey \<Rightarrow> propkey \<Rightarrow> bool" where
  "precedes (Sym y) k' = False"
| "precedes (Name s) (Sym y) = True"
| "precedes (Name s) (Name t) =
     (isArrayIndex s \<and> (if isArrayIndex t then indexLess s t else True))"

text \<open>The keys of an object, as a program can meet them: no key twice, and in the order
  of \<^verbatim>\<open>[[OwnPropertyKeys]]\<close>, so that no key precedes an earlier one.\<close>

definition keyOrdered :: "propkey list \<Rightarrow> bool" where
  "keyOrdered ks = sorted_wrt (\<lambda>k k'. \<not> precedes k' k) ks"

text \<open>\<^verbatim>\<open>CreateDataProperty\<close>, as an object literal and a spread use it: an existing key
  keeps its place and takes the new value; a new key goes before the first key it
  precedes, or last. The property is enumerable.\<close>

fun defineProp :: "propkey \<Rightarrow> jsval \<Rightarrow> property list \<Rightarrow> property list" where
  "defineProp k v [] = [\<lparr>key = k, val = v, enumerable = True\<rparr>]"
| "defineProp k v (p # ps) =
     (if key p = k then \<lparr>key = k, val = v, enumerable = True\<rparr> # ps
      else if findProp k ps = None \<and> precedes k (key p)
      then \<lparr>key = k, val = v, enumerable = True\<rparr> # p # ps
      else p # defineProp k v ps)"

declare defineProp.simps [simp del]

text \<open>An object literal \<^verbatim>\<open>{ k1: v1, k2: v2, ... }\<close> defines its properties from left to
  right.\<close>

definition literal :: "(propkey \<times> jsval) list \<Rightarrow> property list" where
  "literal kvs = foldl (\<lambda>ps kv. defineProp (fst kv) (snd kv) ps) [] kvs"

subsection \<open>Text of numbers and strings\<close>

fun showNat :: "nat \<Rightarrow> string" where
  "showNat n =
     (if n < 10 then [''0123456789'' ! n]
      else showNat (n div 10) @ [''0123456789'' ! (n mod 10)])"

declare showNat.simps [simp del]

definition showInt :: "int \<Rightarrow> string" where
  "showInt i = (if i < 0 then CHR ''-'' # showNat (nat (- i)) else showNat (nat i))"

fun join :: "string \<Rightarrow> string list \<Rightarrow> string" where
  "join sep [] = []"
| "join sep [x] = x"
| "join sep (x # y # ys) = x @ sep @ join sep (y # ys)"

text \<open>\<^verbatim>\<open>QuoteJSONString\<close>: the quote, the backslash and the control characters are
  escaped.\<close>

definition quoteChar :: "char \<Rightarrow> string" where
  "quoteChar c =
     (let n = (of_char c :: nat) in
      if n = 0x22 then [CHR 0x5C, CHR 0x22]
      else if n = 0x5C then [CHR 0x5C, CHR 0x5C]
      else if n = 8 then [CHR 0x5C, CHR ''b'']
      else if n = 9 then [CHR 0x5C, CHR ''t'']
      else if n = 10 then [CHR 0x5C, CHR ''n'']
      else if n = 12 then [CHR 0x5C, CHR ''f'']
      else if n = 13 then [CHR 0x5C, CHR ''r'']
      else if n < 0x20 then
        [CHR 0x5C, CHR ''u'', CHR ''0'', CHR ''0'',
         ''0123456789abcdef'' ! (n div 16), ''0123456789abcdef'' ! (n mod 16)]
      else [c])"

definition QuoteJSONString :: "string \<Rightarrow> string" where
  "QuoteJSONString s = CHR 0x22 # concat (map quoteChar s) @ [CHR 0x22]"

subsection \<open>User code\<close>

text \<open>
  Two of the host operations below run code the embedding does not hold: \<^verbatim>\<open>ToString\<close>
  of an object calls the object's \<^verbatim>\<open>toString\<close>/\<^verbatim>\<open>valueOf\<close>, and \<^verbatim>\<open>JSON.stringify\<close>
  calls a \<^verbatim>\<open>toJSON\<close> method. That code is a parameter \<open>U\<close> of the model:

  \<^item> \<open>textOf U a\<close>: what the conversion of the object at \<open>a\<close> to a string returns, or
    throws;
  \<^item> \<open>writesOf U a\<close>: what that conversion writes, as the objects it leaves changed, each
    with its address;
  \<^item> \<open>jsonOf U f a\<close>: what the function at \<open>f\<close>, called as the \<^verbatim>\<open>toJSON\<close> method of the
    object at \<open>a\<close>, returns or throws. The method of the class itself is no parameter:
    it is the function \<open>toJSON_props\<close> below. A user's method is taken to return a
    primitive or an object that exists already, and to write nothing.
\<close>

record usercode =
  textOf :: "addr \<Rightarrow> error + string"
  writesOf :: "addr \<Rightarrow> (addr \<times> jsobj) list"
  jsonOf :: "addr \<Rightarrow> addr \<Rightarrow> error + jsval"

text \<open>\<^verbatim>\<open>ToString\<close>. A symbol has no text: the host throws. A number's text is the one it
  is kept as.\<close>

fun ToString :: "usercode \<Rightarrow> jsval \<Rightarrow> error + string" where
  "ToString U Undefined = Inr ''undefined''"
| "ToString U Null = Inr ''null''"
| "ToString U (Bool b) = Inr (if b then ''true'' else ''false'')"
| "ToString U (Num (Finite t)) = Inr t"
| "ToString U (Num NaN) = Inr ''NaN''"
| "ToString U (Num PosInf) = Inr ''Infinity''"
| "ToString U (Num NegInf) = Inr ''-Infinity''"
| "ToString U (Str s) = Inr s"
| "ToString U (Symbol y) = Inl (TypeError SymbolToString)"
| "ToString U (BigInt i) = Inr (showInt i)"
| "ToString U (Ref a) = textOf U a"

text \<open>What the conversion of a value writes: nothing, unless the value is an object.\<close>

definition conversionWrites :: "usercode \<Rightarrow> jsval \<Rightarrow> (addr \<times> jsobj) list" where
  "conversionWrites U v = (case v of Ref a \<Rightarrow> writesOf U a | _ \<Rightarrow> [])"

text \<open>User code writes to the objects it can reach. \<open>vis\<close> is the number of objects that
  existed when the program handed control to the class: the objects at the addresses below
  it are those user code may hold, the later ones are the class's own until it returns
  them. A write replaces an object (its properties, its chain) and never moves one.\<close>

definition applyWrites :: "nat \<Rightarrow> (addr \<times> jsobj) list \<Rightarrow> heap \<Rightarrow> heap" where
  "applyWrites vis ws h =
     foldl (\<lambda>h' w. if fst w < vis \<and> fst w < length h' then h'[fst w := snd w] else h') h ws"

subsection \<open>Enumerating properties\<close>

text \<open>\<^verbatim>\<open>EnumerableOwnProperties\<close>: the own properties that have a string key and are
  enumerable, in order. Symbol keys are skipped.\<close>

fun entriesOf :: "property list \<Rightarrow> (string \<times> jsval) list" where
  "entriesOf [] = []"
| "entriesOf (p # ps) =
     (case key p of
        Name s \<Rightarrow> (if enumerable p then (s, val p) # entriesOf ps else entriesOf ps)
      | Sym y \<Rightarrow> entriesOf ps)"

definition stringEntries :: "string \<Rightarrow> (string \<times> jsval) list" where
  "stringEntries s = map (\<lambda>i. (showNat i, Str [s ! i])) [0..<length s]"

text \<open>\<^verbatim>\<open>Object.entries(v)\<close>: \<^verbatim>\<open>ToObject\<close> throws on \<^verbatim>\<open>undefined\<close> and \<^verbatim>\<open>null\<close>; a
  string lists its characters by index; the other primitives have no own property.\<close>

fun Object_entries :: "heap \<Rightarrow> jsval \<Rightarrow> error + (string \<times> jsval) list" where
  "Object_entries h Undefined = Inl (TypeError NullishToObject)"
| "Object_entries h Null = Inl (TypeError NullishToObject)"
| "Object_entries h (Str s) = Inr (stringEntries s)"
| "Object_entries h (Ref a) =
     (case lookup h a of None \<Rightarrow> Inl (NoSuchObject a) | Some ob \<Rightarrow> Inr (entriesOf (own ob)))"
| "Object_entries h v = Inr []"

text \<open>The spread \<^verbatim>\<open>{...source}\<close> (\<^verbatim>\<open>CopyDataProperties\<close>) onto the properties \<open>target\<close>:
  every enumerable own property, symbol keys included; \<^verbatim>\<open>undefined\<close> and \<^verbatim>\<open>null\<close>
  add nothing.\<close>

definition copyProps :: "property list \<Rightarrow> property list \<Rightarrow> property list" where
  "copyProps source target =
     foldl (\<lambda>t p. defineProp (key p) (val p) t) target (filter enumerable source)"

fun CopyDataProperties :: "heap \<Rightarrow> jsval \<Rightarrow> property list \<Rightarrow> error + property list" where
  "CopyDataProperties h (Ref a) target =
     (case lookup h a of
        None \<Rightarrow> Inl (NoSuchObject a)
      | Some ob \<Rightarrow> Inr (copyProps (own ob) target))"
| "CopyDataProperties h (Str s) target =
     Inr (foldl (\<lambda>t (k, v). defineProp (Name k) v t) target (stringEntries s))"
| "CopyDataProperties h v target = Inr target"


section \<open>The class \<^verbatim>\<open>BaseError\<close>: what \<^verbatim>\<open>JSON.stringify\<close> needs of it\<close>

subsection \<open>Operators the class uses\<close>

text \<open>\<^verbatim>\<open>error instanceof BaseError\<close> (\<^verbatim>\<open>OrdinaryHasInstance\<close>): false on a primitive; on an
  object, whether \<^verbatim>\<open>BaseError.prototype\<close> is on its prototype chain.\<close>

fun instanceof_BaseError :: "heap \<Rightarrow> jsval \<Rightarrow> bool" where
  "instanceof_BaseError h (Ref a) =
     (case lookup h a of
        None \<Rightarrow> False
      | Some ob \<Rightarrow> BaseError_prototype \<in> set (map fst (chain ob)))"
| "instanceof_BaseError h v = False"

text \<open>\<^verbatim>\<open>k in v\<close>: a TypeError unless \<open>v\<close> is an object.\<close>

fun in_operator :: "heap \<Rightarrow> propkey \<Rightarrow> jsval \<Rightarrow> error + bool" where
  "in_operator h k (Ref a) =
     (case lookup h a of None \<Rightarrow> Inl (NoSuchObject a) | Some ob \<Rightarrow> Inr (HasProperty ob k))"
| "in_operator h k v = Inl (TypeError InOperand)"

text \<open>The member read \<^verbatim>\<open>v.k\<close>. \<^verbatim>\<open>undefined\<close> and \<^verbatim>\<open>null\<close> throw; another primitive
  reads from its wrapper's prototype, which holds none of the keys read in this file
  (\<^verbatim>\<open>message\<close>, \<^verbatim>\<open>name\<close>, \<^verbatim>\<open>stack\<close>, \<^verbatim>\<open>cause\<close>, \<^verbatim>\<open>metadata\<close>).\<close>

fun GetV :: "heap \<Rightarrow> jsval \<Rightarrow> propkey \<Rightarrow> error + jsval" where
  "GetV h (Ref a) k =
     (case lookup h a of None \<Rightarrow> Inl (NoSuchObject a) | Some ob \<Rightarrow> Inr (Get ob k))"
| "GetV h Undefined k = Inl (TypeError NullishToObject)"
| "GetV h Null k = Inl (TypeError NullishToObject)"
| "GetV h v k = Inr Undefined"

text \<open>\<^verbatim>\<open>v ?? d\<close>.\<close>

definition coalesce :: "jsval \<Rightarrow> jsval \<Rightarrow> jsval" where
  "coalesce v d = (if v = Undefined \<or> v = Null then d else v)"

subsection \<open>\<^verbatim>\<open>toJSON\<close>\<close>

text \<open>
  \<^verbatim>\<open>return { ...this.metadata, name: this.name, message: this.message,
    stack: this.stack ?? '', cause: this.cause ?? 'Unknown Cause' };\<close>

  The literal is filled left to right: the spread first, then the four fixed keys.
  \<open>toJSON_props\<close> is the property list of the new object, \<open>toJSON\<close> allocates it.
  The method reads data properties and runs no user code.
\<close>

definition toJSON_props :: "heap \<Rightarrow> jsobj \<Rightarrow> error + property list" where
  "toJSON_props h ob =
     (case CopyDataProperties h (Get ob (Name ''metadata'')) [] of
        Inl e \<Rightarrow> Inl e
      | Inr ps \<Rightarrow>
          Inr (defineProp (Name ''cause'') (coalesce (Get ob (Name ''cause'')) (Str ''Unknown Cause''))
              (defineProp (Name ''stack'') (coalesce (Get ob (Name ''stack'')) (Str []))
              (defineProp (Name ''message'') (Get ob (Name ''message''))
              (defineProp (Name ''name'') (Get ob (Name ''name'')) ps)))))"

definition toJSON :: "heap \<Rightarrow> addr \<Rightarrow> (error + jsval) \<times> heap" where
  "toJSON h this =
     (case lookup h this of
        None \<Rightarrow> (Inl (NoSuchObject this), h)
      | Some ob \<Rightarrow>
          (case toJSON_props h ob of
             Inl e \<Rightarrow> (Inl e, h)
           | Inr ps \<Rightarrow> (case alloc h (plain ps) of (r, h') \<Rightarrow> (Inr r, h'))))"

section \<open>\<^verbatim>\<open>JSON.stringify\<close>\<close>

text \<open>
  \<^verbatim>\<open>JSON.stringify(value)\<close> with no replacer and no indent, after ECMA-262
  (\<^verbatim>\<open>SerializeJSONProperty\<close>, \<^verbatim>\<open>SerializeJSONObject\<close>, \<^verbatim>\<open>SerializeJSONArray\<close>). The
  result is a string, or \<^verbatim>\<open>undefined\<close> (\<open>None\<close>) for \<^verbatim>\<open>undefined\<close>, a symbol or a
  function; a BigInt throws. In an object a member whose value has no text is dropped, in
  an array it is written \<^verbatim>\<open>null\<close>. Boxed primitives are outside the model.
\<close>

definition digitsValue :: "string \<Rightarrow> nat" where
  "digitsValue t = foldl (\<lambda>n c. 10 * n + digitValue c) 0 t"

definition arrayLength :: "jsobj \<Rightarrow> nat" where
  "arrayLength ob =
     (case Get ob (Name ''length'') of
        Num (Finite t) \<Rightarrow> if list_all isDigit t then digitsValue t else 0
      | _ \<Rightarrow> 0)"

definition arrayElements :: "jsobj \<Rightarrow> (string \<times> jsval) list" where
  "arrayElements ob = map (\<lambda>i. (showNat i, Get ob (Name (showNat i)))) [0..<arrayLength ob]"

text \<open>
  The first step of \<^verbatim>\<open>SerializeJSONProperty\<close>: when the value is an object whose
  \<^verbatim>\<open>toJSON\<close> property, own or inherited, is a function, the function is called with the
  object as \<^verbatim>\<open>this\<close>, and what it returns is serialized in the object's place. Every
  \<^verbatim>\<open>BaseError\<close> inherits the \<^verbatim>\<open>toJSON\<close> of the class: that call returns a new object,
  \<open>Fresh\<close> with its properties (the object is dropped after the walk, so it is given no
  address); \<open>Fresh\<close> keeps the address of the error the method was called on. Another
  function is user code: \<open>jsonOf\<close>.
\<close>

datatype target = Value jsval | Fresh addr "property list"

definition isCallable :: "heap \<Rightarrow> jsval \<Rightarrow> bool" where
  "isCallable h v =
     (case v of
        Ref f \<Rightarrow> (case lookup h f of None \<Rightarrow> False | Some fo \<Rightarrow> callable fo)
      | _ \<Rightarrow> False)"

definition toJSONStep :: "usercode \<Rightarrow> heap \<Rightarrow> jsval \<Rightarrow> error + target" where
  "toJSONStep U h v =
     (case v of
        Ref a \<Rightarrow>
          (case lookup h a of
             None \<Rightarrow> Inl (NoSuchObject a)
           | Some ob \<Rightarrow>
               (case Get ob (Name ''toJSON'') of
                  Ref f \<Rightarrow>
                    if isCallable h (Ref f) then
                      (if f = BaseError_toJSON then
                         (case toJSON_props h ob of
                            Inl e \<Rightarrow> Inl e
                          | Inr ps \<Rightarrow> Inr (Fresh a ps))
                       else
                         (case jsonOf U f a of
                            Inl e \<Rightarrow> Inl e
                          | Inr v' \<Rightarrow> Inr (Value v')))
                    else Inr (Value v)
                | _ \<Rightarrow> Inr (Value v)))
      | _ \<Rightarrow> Inr (Value v))"

text \<open>The text of a value that is no object.\<close>

fun primitiveJSON :: "jsval \<Rightarrow> error + string option" where
  "primitiveJSON Null = Inr (Some ''null'')"
| "primitiveJSON (Bool b) = Inr (Some (if b then ''true'' else ''false''))"
| "primitiveJSON (Num (Finite t)) = Inr (Some t)"
| "primitiveJSON (Num n) = Inr (Some ''null'')"
| "primitiveJSON (Str s) = Inr (Some (QuoteJSONString s))"
| "primitiveJSON (BigInt i) = Inl (TypeError BigIntJSON)"
| "primitiveJSON v = Inr None"

text \<open>
  The walk. \<open>stk\<close> is the algorithm's stack of the objects being serialized: meeting one
  of them again throws the "circular structure" TypeError. The object a \<^verbatim>\<open>toJSON\<close> of the
  class returns is new each time, so the stack never holds it twice: when an error is
  reached again below its own output, with no object entered in between, the walk is
  where it was and would go on for ever; the host ends it with the RangeError of a full
  call stack. \<open>tj\<close> holds the errors whose output is being serialized since the last
  object was entered. So the walk ends on every heap: \<open>serRank\<close> decreases along it.
\<close>

definition serRank ::
  "(usercode \<times> heap \<times> addr list \<times> addr list \<times> jsval)
    + (usercode \<times> heap \<times> addr list \<times> addr list \<times> bool \<times> (string \<times> jsval) list)
    \<Rightarrow> nat \<times> nat \<times> nat" where
  "serRank x =
     (case x of
        Inl (U, h, stk, tj, v) \<Rightarrow>
          (card ({..<length h} - set stk), card ({..<length h} - set tj), 0)
      | Inr (U, h, stk, tj, arr, kvs) \<Rightarrow>
          (card ({..<length h} - set stk), card ({..<length h} - set tj), Suc (length kvs)))"

function SerializeJSONProperty ::
    "usercode \<Rightarrow> heap \<Rightarrow> addr list \<Rightarrow> addr list \<Rightarrow> jsval \<Rightarrow> error + string option"
  and SerializeJSONMembers ::
    "usercode \<Rightarrow> heap \<Rightarrow> addr list \<Rightarrow> addr list \<Rightarrow> bool \<Rightarrow> (string \<times> jsval) list
      \<Rightarrow> error + string list"
where
  "SerializeJSONProperty U h stk tj v =
     (case toJSONStep U h v of
        Inl e \<Rightarrow> Inl e
      | Inr (Fresh a ps) \<Rightarrow>
          if a \<in> set tj then Inl RangeError
          else
            (case SerializeJSONMembers U h stk (a # tj) False (entriesOf ps) of
               Inl e \<Rightarrow> Inl e
             | Inr parts \<Rightarrow> Inr (Some (''{'' @ join '','' parts @ ''}'')))
      | Inr (Value (Ref b)) \<Rightarrow>
          (case lookup h b of
             None \<Rightarrow> Inl (NoSuchObject b)
           | Some ob \<Rightarrow>
               if callable ob then Inr None
               else if b \<in> set stk then Inl (TypeError CircularStructure)
               else if isArray ob then
                 (case SerializeJSONMembers U h (b # stk) [] True (arrayElements ob) of
                    Inl e \<Rightarrow> Inl e
                  | Inr parts \<Rightarrow> Inr (Some (''['' @ join '','' parts @ '']'')))
               else
                 (case SerializeJSONMembers U h (b # stk) [] False (entriesOf (own ob)) of
                    Inl e \<Rightarrow> Inl e
                  | Inr parts \<Rightarrow> Inr (Some (''{'' @ join '','' parts @ ''}''))))
      | Inr (Value w) \<Rightarrow> primitiveJSON w)"
| "SerializeJSONMembers U h stk tj arr [] = Inr []"
| "SerializeJSONMembers U h stk tj arr ((k, v) # kvs) =
     (case SerializeJSONProperty U h stk tj v of
        Inl e \<Rightarrow> Inl e
      | Inr r \<Rightarrow>
          (case SerializeJSONMembers U h stk tj arr kvs of
             Inl e \<Rightarrow> Inl e
           | Inr rest \<Rightarrow>
               Inr (case r of
                      None \<Rightarrow> (if arr then ''null'' # rest else rest)
                    | Some s \<Rightarrow> (if arr then s else QuoteJSONString k @ '':'' @ s) # rest)))"
  by pat_completeness auto
termination
proof (relation "inv_image (less_than <*lex*> less_than <*lex*> less_than) serRank")
  show "wf (inv_image (less_than <*lex*> less_than <*lex*> less_than) serRank)"
    by (intro wf_inv_image wf_lex_prod wf_less_than)
next
  fix h :: heap and tj :: "addr list" and a :: addr
    and U :: usercode and stk :: "addr list" and v :: jsval and ps :: "property list"
    and t :: target
  assume "toJSONStep U h v = Inr t" and "t = Fresh a ps" and "a \<notin> set tj"
  then have mem: "a \<in> {..<length h} - set tj"
    by (auto simp add: toJSONStep_def lookup_def
        split: jsval.splits option.splits if_splits sum.splits)
  have eq: "{..<length h} - set (a # tj) = ({..<length h} - set tj) - {a}"
    by auto
  have "finite ({..<length h} - set tj)"
    by simp
  then have "card (({..<length h} - set tj) - {a}) < card ({..<length h} - set tj)"
    using mem by (rule card_Diff1_less)
  then have less: "card ({..<length h} - set (a # tj)) < card ({..<length h} - set tj)"
    by (simp only: eq)
  show "(Inr (U, h, stk, a # tj, False, entriesOf ps), Inl (U, h, stk, tj, v))
      \<in> inv_image (less_than <*lex*> less_than <*lex*> less_than) serRank"
    using less by (simp add: serRank_def)
next
  fix h :: heap and stk :: "addr list" and b :: addr and ob :: jsobj
    and U :: usercode and tj :: "addr list" and v :: jsval
  assume "lookup h b = Some ob" and "b \<notin> set stk"
  then have mem: "b \<in> {..<length h} - set stk"
    by (simp add: lookup_def split: if_splits)
  have eq: "{..<length h} - set (b # stk) = ({..<length h} - set stk) - {b}"
    by auto
  have "finite ({..<length h} - set stk)"
    by simp
  then have "card (({..<length h} - set stk) - {b}) < card ({..<length h} - set stk)"
    using mem by (rule card_Diff1_less)
  then have less: "card ({..<length h} - set (b # stk)) < card ({..<length h} - set stk)"
    by (simp only: eq)
  show "(Inr (U, h, b # stk, [], True, arrayElements ob), Inl (U, h, stk, tj, v))
      \<in> inv_image (less_than <*lex*> less_than <*lex*> less_than) serRank"
    using less by (simp add: serRank_def)
  show "(Inr (U, h, b # stk, [], False, entriesOf (own ob)), Inl (U, h, stk, tj, v))
      \<in> inv_image (less_than <*lex*> less_than <*lex*> less_than) serRank"
    using less by (simp add: serRank_def)
qed (simp_all add: serRank_def)

declare SerializeJSONProperty.simps [simp del]

definition JSON_stringify :: "usercode \<Rightarrow> heap \<Rightarrow> jsval \<Rightarrow> error + jsval" where
  "JSON_stringify U h v =
     (case SerializeJSONProperty U h [] [] v of
        Inl e \<Rightarrow> Inl e
      | Inr None \<Rightarrow> Inr Undefined
      | Inr (Some s) \<Rightarrow> Inr (Str s))"

section \<open>The constructor and the other methods\<close>

subsection \<open>The constructor\<close>

text \<open>
  \<^verbatim>\<open>constructor(message: string, public metadata: Record<string, unknown> = {})
  { super(message); }\<close> with the field \<^verbatim>\<open>override name = 'BaseError'\<close>.

  The default \<^verbatim>\<open>{}\<close> is allocated when the argument is \<^verbatim>\<open>undefined\<close>.
  \<^verbatim>\<open>super(message)\<close> is the host's \<^verbatim>\<open>Error\<close>: when \<open>message\<close> is not \<^verbatim>\<open>undefined\<close> it
  stores \<^verbatim>\<open>ToString(message)\<close> as the own, non-enumerable \<^verbatim>\<open>message\<close> (and throws where
  \<^verbatim>\<open>ToString\<close> does); otherwise the object has no own \<^verbatim>\<open>message\<close> and reads the
  prototype's \<^verbatim>\<open>""\<close>. That conversion is the one place where the constructor runs user
  code: what it writes is written whether it returns or throws, to the objects below
  \<open>vis\<close>. The stack trace is the host's: \<open>trace\<close> is what it captured, if anything,
  stored as the own, non-enumerable \<^verbatim>\<open>stack\<close>. After \<^verbatim>\<open>super\<close> returns, the parameter
  property \<^verbatim>\<open>metadata\<close> is assigned, then the field \<^verbatim>\<open>name\<close>: both are own, enumerable
  properties, in that order. The prototype is \<^verbatim>\<open>BaseError.prototype\<close>.
\<close>

definition new_BaseError ::
  "usercode \<Rightarrow> string option \<Rightarrow> nat \<Rightarrow> heap \<Rightarrow> jsval \<Rightarrow> jsval
    \<Rightarrow> (error + jsval) \<times> heap" where
  "new_BaseError U trace vis h message metadata0 =
     (case (if metadata0 = Undefined then alloc h (plain []) else (metadata0, h)) of
        (metadata, h1) \<Rightarrow>
          (let h2 = applyWrites vis (conversionWrites U message) h1 in
           case (if message = Undefined then Inr []
                 else (case ToString U message of
                         Inl e \<Rightarrow> Inl e
                       | Inr msg \<Rightarrow> Inr [hidden ''message'' (Str msg)])) of
             Inl e \<Rightarrow> (Inl e, h2)
           | Inr messageProps \<Rightarrow>
               (let stackProps = (case trace of None \<Rightarrow> [] | Some s \<Rightarrow> [hidden ''stack'' (Str s)]);
                    ps = defineProp (Name ''name'') (Str ''BaseError'')
                           (defineProp (Name ''metadata'') metadata
                             (stackProps @ messageProps))
                in case alloc h2 \<lparr>own = ps, chain = BaseError_chain,
                                   callable = False, isArray = False\<rparr> of
                     (this, h3) \<Rightarrow> (Inr this, h3))))"

subsection \<open>\<^verbatim>\<open>toString\<close>\<close>

text \<open>
  \<^verbatim>\<open>const metadataStr = Array.from(Object.entries(this.metadata))
    .map(([key, value]) => `${key}:${value}`).join(' ');
  return `${this.name} (message: ${this.message} ${metadataStr})`;\<close>

  A template literal applies \<^verbatim>\<open>ToString\<close> to each value, so a symbol among the
  metadata values makes the method throw. The method is modelled by what it returns.
\<close>

fun metadataParts :: "usercode \<Rightarrow> (string \<times> jsval) list \<Rightarrow> error + string list" where
  "metadataParts U [] = Inr []"
| "metadataParts U ((k, v) # kvs) =
     (case ToString U v of
        Inl e \<Rightarrow> Inl e
      | Inr s \<Rightarrow>
          (case metadataParts U kvs of
             Inl e \<Rightarrow> Inl e
           | Inr rest \<Rightarrow> Inr ((k @ '':'' @ s) # rest)))"

definition metadataStr :: "usercode \<Rightarrow> heap \<Rightarrow> jsobj \<Rightarrow> error + string" where
  "metadataStr U h ob =
     (case Object_entries h (Get ob (Name ''metadata'')) of
        Inl e \<Rightarrow> Inl e
      | Inr entries \<Rightarrow>
          (case metadataParts U entries of
             Inl e \<Rightarrow> Inl e
           | Inr parts \<Rightarrow> Inr (join '' '' parts)))"

definition toString :: "usercode \<Rightarrow> heap \<Rightarrow> addr \<Rightarrow> error + string" where
  "toString U h this =
     (case lookup h this of
        None \<Rightarrow> Inl (NoSuchObject this)
      | Some ob \<Rightarrow>
          (case metadataStr U h ob of
             Inl e \<Rightarrow> Inl e
           | Inr ms \<Rightarrow>
               (case ToString U (Get ob (Name ''name'')) of
                  Inl e \<Rightarrow> Inl e
                | Inr n \<Rightarrow>
                    (case ToString U (Get ob (Name ''message'')) of
                       Inl e \<Rightarrow> Inl e
                     | Inr m \<Rightarrow> Inr (n @ '' (message: '' @ m @ '' '' @ ms @ '')'')))))"

text \<open>The two older copies of the class (\<^verbatim>\<open>packages/js-errors/src/lib/js-errors.ts\<close> and
  the first unnamed file) close the parenthesis before the metadata:
  \<^verbatim>\<open>return `${this.name} (message: ${this.message}) ${metadataStr}`;\<close>\<close>

definition toString_old :: "usercode \<Rightarrow> heap \<Rightarrow> addr \<Rightarrow> error + string" where
  "toString_old U h this =
     (case lookup h this of
        None \<Rightarrow> Inl (NoSuchObject this)
      | Some ob \<Rightarrow>
          (case metadataStr U h ob of
             Inl e \<Rightarrow> Inl e
           | Inr ms \<Rightarrow>
               (case ToString U (Get ob (Name ''name'')) of
                  Inl e \<Rightarrow> Inl e
                | Inr n \<Rightarrow>
                    (case ToString U (Get ob (Name ''message'')) of
                       Inl e \<Rightarrow> Inl e
                     | Inr m \<Rightarrow> Inr (n @ '' (message: '' @ m @ '') '' @ ms)))))"

subsection \<open>\<^verbatim>\<open>fromCatch\<close>\<close>

text \<open>
  \<^verbatim>\<open>static fromCatch(error: any) {
    if (error instanceof BaseError) { return error; }
    const message = 'message' in error ? error.message : JSON.stringify(error);
    const metadata = Array.from(Object.entries(error)).reduce(
      (output, [key, value]) => { return { ...output, [key]: value }; }, {});
    return new BaseError(message, metadata);
  }\<close>

  \<open>reduceStep\<close> is the callback of \<^verbatim>\<open>reduce\<close> on property lists: a spread of the
  accumulator, then the computed key. The objects the callback builds and drops are not
  allocated in the model's heap; the last one, the metadata, is. User code has never seen
  it when the constructor runs, so the constructor is called with the number of objects
  the caller's heap had. The heap is returned with every outcome, so that what the call
  leaves behind can be stated.
\<close>

definition reduceStep :: "property list \<Rightarrow> string \<times> jsval \<Rightarrow> property list" where
  "reduceStep output kv = defineProp (Name (fst kv)) (snd kv) (copyProps output [])"

definition fromCatch ::
  "usercode \<Rightarrow> string option \<Rightarrow> heap \<Rightarrow> jsval \<Rightarrow> (error + jsval) \<times> heap" where
  "fromCatch U trace h error =
     (if instanceof_BaseError h error then (Inr error, h)
      else
        (case in_operator h (Name ''message'') error of
           Inl e \<Rightarrow> (Inl e, h)
         | Inr has \<Rightarrow>
             (case (if has then GetV h error (Name ''message'') else JSON_stringify U h error) of
                Inl e \<Rightarrow> (Inl e, h)
              | Inr message \<Rightarrow>
                  (case Object_entries h error of
                     Inl e \<Rightarrow> (Inl e, h)
                   | Inr entries \<Rightarrow>
                       (case alloc h (plain (foldl reduceStep [] entries)) of
                          (metadata, h1) \<Rightarrow>
                            new_BaseError U trace (length h) h1 message metadata)))))"


text \<open>The primitives: every value that is not a reference.\<close>

fun primitive :: "jsval \<Rightarrow> bool" where
  "primitive (Ref a) = False"
| "primitive v = True"


section \<open>Example heaps\<close>

text \<open>The inputs of the package's tests (\<^verbatim>\<open>js-errors.spec.ts\<close>) and a few more, each in a
  heap that starts with the realm, so the first object of a test is at address 7.
  \<open>objectText\<close> is the user code of a program that defines none: the text of an object
  is that of \<^verbatim>\<open>Object.prototype.toString\<close>, and no conversion writes.\<close>

definition objectText :: usercode where
  "objectText =
     \<lparr>textOf = (\<lambda>a. Inr ''[object Object]''), writesOf = (\<lambda>a. []),
      jsonOf = (\<lambda>f a. Inr Undefined)\<rparr>"





text \<open>\<^verbatim>\<open>const o = {}; o.self = o;\<close>: a cycle and no \<^verbatim>\<open>message\<close>.\<close>

definition h_cycle :: heap where
  "h_cycle = realm @ [plain [field ''self'' (Ref 7)]]"




text \<open>\<^verbatim>\<open>{ id: 10n }\<close>\<close>

definition h_bigint :: heap where
  "h_bigint = realm @ [plain [field ''id'' (BigInt 10)]]"





text \<open>\<^verbatim>\<open>{ name: 'ValidationError', message: 'Invalid email' }\<close>\<close>

definition o_named :: jsobj where
  "o_named =
     plain [field ''name'' (Str ''ValidationError''), field ''message'' (Str ''Invalid email'')]"

definition h_named :: heap where
  "h_named = realm @ [o_named]"

text \<open>\<^verbatim>\<open>new TypeError('Type mismatch')\<close>: \<^verbatim>\<open>TypeError.prototype\<close> at address 7 holds the
  name, the instance at address 8 its own non-enumerable \<^verbatim>\<open>stack\<close> and \<^verbatim>\<open>message\<close>.\<close>

definition TypeError_props :: "property list" where
  "TypeError_props = [hidden ''name'' (Str ''TypeError''), hidden ''message'' (Str [])]"

definition h_typeerror :: heap where
  "h_typeerror =
     realm @
     [\<lparr>own = TypeError_props, chain = Error_chain, callable = False, isArray = False\<rparr>,
      \<lparr>own = [hidden ''stack'' (Str ''TypeError: Type mismatch''),
               hidden ''message'' (Str ''Type mismatch'')],
        chain = (7, TypeError_props) # Error_chain, callable = False, isArray = False\<rparr>]"

text \<open>\<^verbatim>\<open>const error = new Error('Base error'); error.code = 'ERR_CUSTOM';
  error.context = { userId: 123 }; error[Symbol('test')] = 'symbol value';\<close>: the error
  at address 7, the context object at address 8.\<close>

definition o_extra :: jsobj where
  "o_extra =
     \<lparr>own = [hidden ''stack'' (Str ''Error: Base error''),
              hidden ''message'' (Str ''Base error''),
              field ''code'' (Str ''ERR_CUSTOM''),
              field ''context'' (Ref 8),
              \<lparr>key = Sym 0, val = Str ''symbol value'', enumerable = True\<rparr>],
       chain = Error_chain, callable = False, isArray = False\<rparr>"

definition h_extra :: heap where
  "h_extra = realm @ [o_extra, plain [field ''userId'' (Num (Finite ''123''))]]"

text \<open>\<^verbatim>\<open>new BaseError('Original error', { code: 'ERR_001' })\<close>: the metadata object at
  address 7, the error at address 8.\<close>

definition h_original :: heap where
  "h_original =
     snd (new_BaseError objectText (Some ''BaseError: Original error'') 8
            (realm @ [plain [field ''code'' (Str ''ERR_001'')]]) (Str ''Original error'') (Ref 7))"

text \<open>\<^verbatim>\<open>new BaseError('Test error')\<close>: the default metadata at address 7, the error at
  address 8.\<close>

definition h_test :: heap where
  "h_test =
     snd (new_BaseError objectText (Some ''BaseError: Test error'') 7 realm
            (Str ''Test error'') Undefined)"

text \<open>\<^verbatim>\<open>new BaseError('Test error', { userId: 123, requestId: 'abc-123' })\<close>\<close>

definition o_user :: jsobj where
  "o_user = plain [field ''userId'' (Num (Finite ''123'')), field ''requestId'' (Str ''abc-123'')]"

definition h_user :: heap where
  "h_user =
     snd (new_BaseError objectText (Some ''BaseError: Test error'') 8 (realm @ [o_user])
            (Str ''Test error'') (Ref 7))"



text \<open>\<^verbatim>\<open>new BaseError('Test', { message: 'Error: something went wrong',
  path: '/api/users' })\<close>: a metadata key that is also a fixed key of \<^verbatim>\<open>toJSON\<close>.\<close>

definition o_collide :: jsobj where
  "o_collide =
     plain [field ''message'' (Str ''Error: something went wrong''),
            field ''path'' (Str ''/api/users'')]"

definition h_collide :: heap where
  "h_collide =
     snd (new_BaseError objectText (Some ''BaseError: Test'') 8 (realm @ [o_collide])
            (Str ''Test'') (Ref 7))"






text \<open>\<^verbatim>\<open>const e = new BaseError('Loop'); e.metadata.self = e; const v = { inner: e };\<close>:
  the metadata at address 7 holds the error at address 8, whose \<^verbatim>\<open>toJSON\<close> spreads the
  metadata; the input is at address 9.\<close>

definition h_loop :: heap where
  "h_loop =
     (snd (new_BaseError objectText None 7 realm (Str ''Loop'') Undefined))
       [7 := plain [field ''self'' (Ref 8)]]
     @ [plain [field ''inner'' (Ref 8)]]"




text \<open>\<^verbatim>\<open>{ inner: new BaseError('x', { message: 10n }) }\<close>: the metadata at address 7, the
  error at address 8, the input at address 9.\<close>

definition h_shadowed :: heap where
  "h_shadowed =
     snd (new_BaseError objectText None 8 (realm @ [plain [field ''message'' (BigInt 10)]])
            (Str ''x'') (Ref 7))
     @ [plain [field ''inner'' (Ref 8)]]"

text \<open>\<^verbatim>\<open>{ when: { toJSON() { return 'noon'; } } }\<close>: the input at address 7, the object
  with the method at address 8, the method at address 9. \<open>noonCode\<close> is that program's
  user code.\<close>

definition h_noon :: heap where
  "h_noon =
     realm @
     [plain [field ''when'' (Ref 8)],
      plain [field ''toJSON'' (Ref 9)],
      \<lparr>own = [hidden ''length'' (Num (Finite ''0'')), hidden ''name'' (Str ''toJSON'')],
        chain = Function_chain, callable = True, isArray = False\<rparr>]"

definition noonCode :: usercode where
  "noonCode =
     \<lparr>textOf = (\<lambda>a. Inr ''[object Object]''), writesOf = (\<lambda>a. []),
      jsonOf = (\<lambda>f a. if f = 9 \<and> a = 8 then Inr (Str ''noon'') else Inr Undefined)\<rparr>"

text \<open>\<^verbatim>\<open>{ message: 1e21 }\<close>, and \<^verbatim>\<open>new BaseError('Test error', { a: 1e21 })\<close>.\<close>

definition h_numeric :: heap where
  "h_numeric = realm @ [plain [field ''message'' (Num (Finite ''1e+21''))]]"

definition h_big :: heap where
  "h_big =
     snd (new_BaseError objectText (Some ''BaseError: Test error'') 8
            (realm @ [plain [field ''a'' (Num (Finite ''1e+21''))]]) (Str ''Test error'') (Ref 7))"

section \<open>Properties\<close>

subsection \<open>The heap under allocation and under the writes of user code\<close>

lemma lookup_alloc_old: "a < length h \<Longrightarrow> lookup (h @ xs) a = lookup h a"
  by (simp add: lookup_def nth_append)

lemma lookup_alloc_new: "lookup (h @ [ob]) (length h) = Some ob"
  by (simp add: lookup_def)

lemma lookup_Some_less: "lookup h a = Some ob \<Longrightarrow> a < length h"
  by (simp add: lookup_def split: if_splits)

lemma applyWrites_Nil: "applyWrites vis [] h = h"
  by (simp add: applyWrites_def)

lemma applyWrites_Cons:
  "applyWrites vis (w # ws) h =
    applyWrites vis ws (if fst w < vis \<and> fst w < length h then h[fst w := snd w] else h)"
  by (simp add: applyWrites_def)

lemma length_applyWrites: "length (applyWrites vis ws h) = length h"
  by (induction ws arbitrary: h) (simp_all add: applyWrites_Nil applyWrites_Cons)

text \<open>The writes do not reach the objects allocated after \<open>vis\<close>.\<close>

lemma applyWrites_append:
  "vis \<le> length h \<Longrightarrow> applyWrites vis ws (h @ xs) = applyWrites vis ws h @ xs"
proof (induction ws arbitrary: h)
  case Nil
  then show ?case by (simp add: applyWrites_Nil)
next
  case (Cons w ws)
  show ?case
  proof (cases "fst w < vis")
    case True
    with Cons.prems have less: "fst w < length h"
      by simp
    have "vis \<le> length (h[fst w := snd w])"
      using Cons.prems by simp
    from Cons.IH [OF this] True less show ?thesis
      by (simp add: applyWrites_Cons list_update_append1)
  next
    case False
    with Cons.IH [OF Cons.prems] show ?thesis
      by (simp add: applyWrites_Cons)
  qed
qed

lemma conversionWrites_primitive: "primitive v \<Longrightarrow> conversionWrites U v = []"
  by (cases v) (simp_all add: conversionWrites_def)

subsection \<open>What \<^verbatim>\<open>fromCatch\<close> does on an object\<close>

text \<open>On an object that is no \<^verbatim>\<open>BaseError\<close> the method reads the message (the property,
  or the serialization), allocates the metadata at the next free address and calls the
  constructor with it.\<close>

lemma fromCatch_object:
  assumes "lookup h a = Some ob" and "\<not> instanceof_BaseError h (Ref a)"
  shows "fromCatch U trace h (Ref a) =
    (case (if HasProperty ob (Name ''message'') then Inr (Get ob (Name ''message''))
           else JSON_stringify U h (Ref a)) of
       Inl e \<Rightarrow> (Inl e, h)
     | Inr message \<Rightarrow>
         new_BaseError U trace (length h)
           (h @ [plain (foldl reduceStep [] (entriesOf (own ob)))]) message (Ref (length h)))"
  using assms by (simp add: fromCatch_def alloc_def split: sum.splits)

text \<open>The constructor called with a metadata object: it fails exactly where the text of
  the message does, and otherwise allocates the error at the next free address. What the
  conversion of the message writes is written in both cases.\<close>

lemma new_BaseError_Ref:
  "new_BaseError U trace vis h message (Ref m) =
    (case (if message = Undefined then Inr []
           else (case ToString U message of
                   Inl e \<Rightarrow> Inl e
                 | Inr msg \<Rightarrow> Inr [hidden ''message'' (Str msg)])) of
       Inl e \<Rightarrow> (Inl e, applyWrites vis (conversionWrites U message) h)
     | Inr messageProps \<Rightarrow>
         (Inr (Ref (length h)),
          applyWrites vis (conversionWrites U message) h
          @ [\<lparr>own = defineProp (Name ''name'') (Str ''BaseError'')
                        (defineProp (Name ''metadata'') (Ref m)
                          ((case trace of None \<Rightarrow> [] | Some s \<Rightarrow> [hidden ''stack'' (Str s)])
                            @ messageProps)),
                chain = BaseError_chain, callable = False, isArray = False\<rparr>]))"
  by (simp add: new_BaseError_def alloc_def Let_def length_applyWrites split: sum.splits)

text \<open>Called by \<^verbatim>\<open>fromCatch\<close>, with the metadata \<open>mo\<close> just allocated: the objects of
  the caller's heap are what the conversion left of them, and the metadata is as it was
  built.\<close>

lemma new_BaseError_after_metadata:
  "new_BaseError U trace (length h) (h @ [mo]) message (Ref m) =
    (case (if message = Undefined then Inr []
           else (case ToString U message of
                   Inl e \<Rightarrow> Inl e
                 | Inr msg \<Rightarrow> Inr [hidden ''message'' (Str msg)])) of
       Inl e \<Rightarrow> (Inl e, applyWrites (length h) (conversionWrites U message) h @ [mo])
     | Inr messageProps \<Rightarrow>
         (Inr (Ref (Suc (length h))),
          applyWrites (length h) (conversionWrites U message) h
          @ [mo,
             \<lparr>own = defineProp (Name ''name'') (Str ''BaseError'')
                        (defineProp (Name ''metadata'') (Ref m)
                          ((case trace of None \<Rightarrow> [] | Some s \<Rightarrow> [hidden ''stack'' (Str s)])
                            @ messageProps)),
                chain = BaseError_chain, callable = False, isArray = False\<rparr>]))"
  by (simp add: new_BaseError_Ref applyWrites_append split: sum.splits)

text \<open>Every object the constructor returns is an instance of \<^verbatim>\<open>BaseError\<close>, so the
  hypothesis of the next theorem covers every constructed error (and those of subclasses,
  whose chains pass through \<^verbatim>\<open>BaseError.prototype\<close>).\<close>

lemma new_BaseError_instance:
  assumes "new_BaseError U trace vis h message metadata0 = (Inr r, h')"
  shows "instanceof_BaseError h' r"
  using assms
  by (auto simp add: new_BaseError_def alloc_def Let_def lookup_def BaseError_chain_def
      nth_append length_applyWrites split: sum.splits if_splits)

text \<open>So is every value \<^verbatim>\<open>fromCatch\<close> returns, and a second call returns it as it
  is.\<close>

lemma fromCatch_result_instance:
  assumes "fromCatch U trace h v = (Inr r, h')"
  shows "instanceof_BaseError h' r"
proof (cases "instanceof_BaseError h v")
  case True
  with assms show ?thesis by (simp add: fromCatch_def)
next
  case False
  with assms show ?thesis
    by (auto simp add: fromCatch_def alloc_def split: sum.splits dest: new_BaseError_instance)
qed

lemma fromCatch_twice:
  assumes "fromCatch U trace h v = (Inr r, h')"
  shows "fromCatch U' trace' h' r = (Inr r, h')"
  using fromCatch_result_instance [OF assms] by (simp add: fromCatch_def)

subsection \<open>C1: an error that is a \<^verbatim>\<open>BaseError\<close> already\<close>

text \<open>
  Claim C1. For every value \<open>e\<close> that is an instance of \<^verbatim>\<open>BaseError\<close>,
  \<^verbatim>\<open>BaseError.fromCatch(e)\<close> returns \<open>e\<close> itself, the same reference and no copy, and the
  heap is as it was: nothing is allocated and \<open>e\<close> is unchanged.
\<close>

theorem fromCatch_returns_the_same_BaseError:
  assumes "instanceof_BaseError h e"
  shows "fromCatch U trace h e = (Inr e, h)"
  using assms by (simp add: fromCatch_def)

theorem fromCatch_returns_the_same_BaseError_witness:
  "instanceof_BaseError h_original (Ref 8)
   \<and> fromCatch objectText None h_original (Ref 8) = (Inr (Ref 8), h_original)"
proof -
  have inst: "instanceof_BaseError h_original (Ref 8)"
    by code_simp
  from fromCatch_returns_the_same_BaseError [OF inst, of objectText None] inst
  show ?thesis by simp
qed

subsection \<open>C9: the heap after a call\<close>






subsection \<open>Defining and finding properties\<close>

lemma findProp_defineProp_same:
  "findProp k (defineProp k v ps) = Some \<lparr>key = k, val = v, enumerable = True\<rparr>"
  by (induction ps) (auto simp add: defineProp.simps)

lemma findProp_defineProp_other:
  "k' \<noteq> k \<Longrightarrow> findProp k' (defineProp k v ps) = findProp k' ps"
  by (induction ps) (auto simp add: defineProp.simps)

lemma findProp_None: "k \<notin> key ` set ps \<Longrightarrow> findProp k ps = None"
  by (induction ps) auto

subsection \<open>What the constructor stores\<close>


lemma new_BaseError_metadata:
  assumes "new_BaseError U trace (length h) (h @ [mo]) m (Ref (length h)) = (Inr r, h')"
  shows "GetV h' r (Name ''metadata'') = Inr (Ref (length h)) \<and> lookup h' (length h) = Some mo"
proof -
  from assms have r: "r = Ref (Suc (length h))"
    by (simp add: new_BaseError_after_metadata split: sum.splits if_splits)
  from assms obtain ps h0 where
    h': "h' = h0 @ [mo, \<lparr>own = defineProp (Name ''name'') (Str ''BaseError'')
                                 (defineProp (Name ''metadata'') (Ref (length h)) ps),
      chain = BaseError_chain, callable = False, isArray = False\<rparr>]"
    and h0: "length h0 = length h"
    by (auto simp add: new_BaseError_after_metadata length_applyWrites
        split: sum.splits if_splits)
  show ?thesis
    by (simp add: r h' h0 [symmetric] lookup_def Get_def findProp_defineProp_same
        findProp_defineProp_other nth_append)
qed

subsection \<open>C2: primitives\<close>




subsection \<open>C3: a cycle and no message\<close>

text \<open>An object with no \<^verbatim>\<open>toJSON\<close> method is serialized as the object it is.\<close>

lemma toJSONStep_plain:
  assumes "lookup h a = Some ob" and "\<not> isCallable h (Get ob (Name ''toJSON''))"
  shows "toJSONStep U h (Ref a) = Inr (Value (Ref a))"
  using assms by (auto simp add: toJSONStep_def split: jsval.splits)

text \<open>A member that is an object already on the stack stops the serialization of the
  list it is in (at that member, or at an earlier one that throws).\<close>

lemma SerializeJSONMembers_revisit:
  assumes "(k, Ref a) \<in> set kvs" and "a \<in> set stk"
    and "lookup h a = Some ob" and "\<not> callable ob"
    and "\<not> isCallable h (Get ob (Name ''toJSON''))"
  shows "isl (SerializeJSONMembers U h stk tj arr kvs)"
  using assms(1)
proof (induction kvs)
  case Nil
  then show ?case by simp
next
  case (Cons kv kvs)
  obtain k' v' where kv: "kv = (k', v')" by (cases kv)
  show ?case
  proof (cases "kv = (k, Ref a)")
    case True
    have "SerializeJSONProperty U h stk tj (Ref a) = Inl (TypeError CircularStructure)"
      using assms(2-4) by (simp add: SerializeJSONProperty.simps toJSONStep_plain [OF assms(3,5)])
    with True show ?thesis by simp
  next
    case False
    with Cons have "isl (SerializeJSONMembers U h stk tj arr kvs)" by simp
    with kv show ?thesis
      by (auto split: sum.splits)
  qed
qed

text \<open>So \<^verbatim>\<open>fromCatch\<close> throws on every plain object that has no \<^verbatim>\<open>message\<close> property,
  no \<^verbatim>\<open>toJSON\<close> method, and holds itself in one of its own enumerable string-keyed
  properties.\<close>

lemma fromCatch_self_reference_throws:
  assumes "lookup h a = Some ob" and "\<not> instanceof_BaseError h (Ref a)"
    and "\<not> HasProperty ob (Name ''message'')"
    and "\<not> callable ob" and "\<not> isArray ob"
    and "\<not> isCallable h (Get ob (Name ''toJSON''))"
    and "(k, Ref a) \<in> set (entriesOf (own ob))"
  shows "isl (fst (fromCatch U trace h (Ref a)))"
proof -
  have "isl (SerializeJSONMembers U h [a] [] False (entriesOf (own ob)))"
    using SerializeJSONMembers_revisit [OF assms(7) _ assms(1,4,6)] by simp
  then have "isl (JSON_stringify U h (Ref a))"
    using assms(1,4,5)
    by (auto simp add: JSON_stringify_def SerializeJSONProperty.simps
        toJSONStep_plain [OF assms(1,6)] split: sum.splits)
  then show ?thesis
    using assms(3) by (auto simp add: fromCatch_object [OF assms(1,2)] split: sum.splits)
qed

text \<open>
  Claim C3 says that on an object with a circular reference and no \<^verbatim>\<open>message\<close> property
  the serialization neither throws nor hangs. The walk does end (the serialization is a
  total function), but on \<^verbatim>\<open>const o = {}; o.self = o;\<close> the call \<^verbatim>\<open>fromCatch(o)\<close> throws
  the TypeError of \<^verbatim>\<open>JSON.stringify\<close> ("Converting circular structure to JSON") and
  returns no \<^verbatim>\<open>BaseError\<close>.
\<close>

theorem fromCatch_cycle_without_message_throws:
  "fromCatch objectText None h_cycle (Ref 7) = (Inl (TypeError CircularStructure), h_cycle)"
  by code_simp

text \<open>A cycle that passes through an error is not met on the stack, since the \<^verbatim>\<open>toJSON\<close>
  of the class returns a new object each time: on
  \<^verbatim>\<open>const e = new BaseError('Loop'); e.metadata.self = e;\<close> the call
  \<^verbatim>\<open>fromCatch({ inner: e })\<close> ends with the host's RangeError.\<close>

lemma fromCatch_cycle_through_toJSON:
  "fromCatch objectText None h_loop (Ref 9) = (Inl RangeError, h_loop)"
  by code_simp

subsection \<open>C4: the message property\<close>



text \<open>A message that is a number reaches the result as the number's text:
  \<^verbatim>\<open>fromCatch({ message: 1e21 })\<close> has the message \<^verbatim>\<open>'1e+21'\<close>.\<close>

lemma fromCatch_numeric_message:
  "GetV (snd (fromCatch objectText None h_numeric (Ref 7))) (Ref 9) (Name ''message'')
     = Inr (Str ''1e+21'')"
  by code_simp


subsection \<open>C5: the serialization as message\<close>




text \<open>Two more inputs that reach a \<^verbatim>\<open>toJSON\<close> method. In
  \<^verbatim>\<open>{ inner: new BaseError('x', { message: 10n }) }\<close> the BigInt is never serialized: the
  error's \<^verbatim>\<open>toJSON\<close> writes its own message over the metadata's. In
  \<^verbatim>\<open>{ when: { toJSON() { return 'noon'; } } }\<close> the method is the user's.\<close>

lemma fromCatch_nested_error_with_bigint:
  \<open>GetV (snd (fromCatch objectText None h_shadowed (Ref 9))) (Ref 11) (Name ''message'')
     = Inr (Str (''{"inner":{"message":"x","name":"BaseError",''
                 @ ''"stack":"","cause":"Unknown Cause"}}''))\<close>
  by code_simp

lemma fromCatch_user_toJSON:
  \<open>GetV (snd (fromCatch noonCode None h_noon (Ref 7))) (Ref 11) (Name ''message'')
     = Inr (Str ''{"when":"noon"}'')\<close>
  by code_simp

subsection \<open>The metadata that \<^verbatim>\<open>reduce\<close> builds\<close>

text \<open>Over entries with distinct keys, as \<^verbatim>\<open>Object.entries\<close> gives them, the callback adds
  a property at the end each time, so the result lists the entries in their order, each
  as an enumerable property.\<close>

lemma defineProp_append:
  assumes "k \<notin> key ` set ps" and "\<forall>p\<in>set ps. \<not> precedes k (key p)"
  shows "defineProp k v ps = ps @ [\<lparr>key = k, val = v, enumerable = True\<rparr>]"
  using assms by (induction ps) (auto simp add: defineProp.simps)

lemma defineProp_fresh_field:
  assumes "k \<notin> fst ` set ys" and "\<forall>kv\<in>set ys. \<not> precedes (Name k) (Name (fst kv))"
  shows "defineProp (Name k) v (map (\<lambda>(k, v). field k v) ys)
      = map (\<lambda>(k, v). field k v) ys @ [field k v]"
proof -
  have "Name k \<notin> key ` set (map (\<lambda>(k, v). field k v) ys)"
    using assms(1) by (force simp add: field_def)
  moreover have "\<forall>p\<in>set (map (\<lambda>(k, v). field k v) ys). \<not> precedes (Name k) (key p)"
    using assms(2) by (force simp add: field_def simp del: precedes.simps)
  ultimately show ?thesis
    by (simp add: defineProp_append field_def)
qed

lemma keyOrdered_snoc:
  assumes "keyOrdered (map (\<lambda>kv. Name (fst kv)) (ys @ (k, v) # xs))"
  shows "\<forall>kv\<in>set ys. \<not> precedes (Name k) (Name (fst kv))"
  using assms by (auto simp add: keyOrdered_def sorted_wrt_append)

lemma foldl_defineProp_fields:
  "distinct (map fst (ys @ xs)) \<Longrightarrow> keyOrdered (map (\<lambda>kv. Name (fst kv)) (ys @ xs)) \<Longrightarrow>
    foldl (\<lambda>t p. defineProp (key p) (val p) t) (map (\<lambda>(k, v). field k v) ys)
      (map (\<lambda>(k, v). field k v) xs) = map (\<lambda>(k, v). field k v) (ys @ xs)"
proof (induction xs arbitrary: ys)
  case Nil
  then show ?case by simp
next
  case (Cons x xs)
  obtain k v where x: "x = (k, v)" by (cases x)
  from Cons.prems x have fresh: "k \<notin> fst ` set ys" by auto
  have later: "\<forall>kv\<in>set ys. \<not> precedes (Name k) (Name (fst kv))"
    using Cons.prems(2) unfolding x by (rule keyOrdered_snoc)
  from Cons.prems x have d: "distinct (map fst ((ys @ [(k, v)]) @ xs))"
    and o: "keyOrdered (map (\<lambda>kv. Name (fst kv)) ((ys @ [(k, v)]) @ xs))"
    by simp_all
  have "defineProp (key (field k v)) (val (field k v)) (map (\<lambda>(k, v). field k v) ys)
      = map (\<lambda>(k, v). field k v) (ys @ [(k, v)])"
    using defineProp_fresh_field [OF fresh later, of v] by (simp add: field_def)
  then show ?case
    using Cons.IH [OF d o] x by simp
qed

lemma keyOrdered_prefix:
  "keyOrdered (map f (ys @ xs)) \<Longrightarrow> keyOrdered (map f ys)"
  by (simp add: keyOrdered_def sorted_wrt_append)

lemma copyProps_fields:
  assumes "distinct (map fst xs)" and "keyOrdered (map (\<lambda>kv. Name (fst kv)) xs)"
  shows "copyProps (map (\<lambda>(k, v). field k v) xs) [] = map (\<lambda>(k, v). field k v) xs"
proof -
  have "filter enumerable (map (\<lambda>(k, v). field k v) xs) = map (\<lambda>(k, v). field k v) xs"
    by (induction xs) (auto simp add: field_def)
  then show ?thesis
    using foldl_defineProp_fields [of "[]" xs] assms by (simp add: copyProps_def)
qed

lemma foldl_reduceStep_fields:
  "distinct (map fst (ys @ xs)) \<Longrightarrow> keyOrdered (map (\<lambda>kv. Name (fst kv)) (ys @ xs)) \<Longrightarrow>
    foldl reduceStep (map (\<lambda>(k, v). field k v) ys) xs = map (\<lambda>(k, v). field k v) (ys @ xs)"
proof (induction xs arbitrary: ys)
  case Nil
  then show ?case by simp
next
  case (Cons x xs)
  obtain k v where x: "x = (k, v)" by (cases x)
  from Cons.prems x have fresh: "k \<notin> fst ` set ys" and dy: "distinct (map fst ys)" by auto
  have later: "\<forall>kv\<in>set ys. \<not> precedes (Name k) (Name (fst kv))"
    using Cons.prems(2) unfolding x by (rule keyOrdered_snoc)
  from Cons.prems(2) have oy: "keyOrdered (map (\<lambda>kv. Name (fst kv)) ys)"
    by (rule keyOrdered_prefix)
  from Cons.prems x have d: "distinct (map fst ((ys @ [(k, v)]) @ xs))"
    and o: "keyOrdered (map (\<lambda>kv. Name (fst kv)) ((ys @ [(k, v)]) @ xs))"
    by simp_all
  have "reduceStep (map (\<lambda>(k, v). field k v) ys) (k, v)
      = map (\<lambda>(k, v). field k v) (ys @ [(k, v)])"
    using defineProp_fresh_field [OF fresh later, of v] copyProps_fields [OF dy oy]
    by (simp add: reduceStep_def)
  then show ?case
    using Cons.IH [OF d o] x by simp
qed

lemma entriesOf_keys: "s \<in> fst ` set (entriesOf ps) \<Longrightarrow> Name s \<in> key ` set ps"
  by (induction ps) (auto split: propkey.splits if_splits)

lemma entriesOf_distinct: "distinct (map key ps) \<Longrightarrow> distinct (map fst (entriesOf ps))"
proof (induction ps)
  case Nil
  then show ?case by simp
next
  case (Cons p ps)
  show ?case
  proof (cases "key p")
    case (Name s)
    from Cons.prems Name have "Name s \<notin> key ` set ps" by auto
    then have "s \<notin> fst ` set (entriesOf ps)"
      using entriesOf_keys by blast
    with Cons Name show ?thesis by simp
  next
    case (Sym y)
    with Cons show ?thesis by simp
  qed
qed

lemma entriesOf_keyOrdered:
  "keyOrdered (map key ps) \<Longrightarrow> keyOrdered (map (\<lambda>kv. Name (fst kv)) (entriesOf ps))"
proof (induction ps)
  case Nil
  then show ?case by (simp add: keyOrdered_def)
next
  case (Cons p ps)
  from Cons.prems have tl: "keyOrdered (map key ps)"
    and hd: "\<forall>k'\<in>key ` set ps. \<not> precedes k' (key p)"
    by (auto simp add: keyOrdered_def)
  have "\<forall>kv\<in>set (entriesOf ps). \<not> precedes (Name (fst kv)) (key p)"
    using hd entriesOf_keys [of _ ps] by force
  with Cons.IH [OF tl] show ?case
    by (auto simp add: keyOrdered_def split: propkey.splits)
qed

subsection \<open>C8: where the metadata comes from\<close>

text \<open>
  Claim C8. For every input object that is no \<^verbatim>\<open>BaseError\<close> (its keys distinct and in
  their order, as the keys of an object are) on which \<^verbatim>\<open>fromCatch\<close> returns, the
  \<^verbatim>\<open>metadata\<close> of the result is
  a new object whose own properties are exactly the input's own enumerable string-keyed
  properties, in their order: \<open>entriesOf\<close> leaves out the symbol keys and the
  non-enumerable properties. Each value is the input's value itself; a reference stays
  the same reference, and nothing it points to is read or copied.
\<close>

theorem fromCatch_metadata_provenance:
  assumes "lookup h a = Some ob" and "\<not> instanceof_BaseError h (Ref a)"
    and "distinct (map key (own ob))" and "keyOrdered (map key (own ob))"
    and "fromCatch U trace h (Ref a) = (Inr r, h')"
  shows "GetV h' r (Name ''metadata'') = Inr (Ref (length h))
    \<and> lookup h' (length h) = Some (plain (map (\<lambda>(k, v). field k v) (entriesOf (own ob))))"
proof -
  have meta: "foldl reduceStep [] (entriesOf (own ob))
      = map (\<lambda>(k, v). field k v) (entriesOf (own ob))"
    using foldl_reduceStep_fields [of "[]" "entriesOf (own ob)"] entriesOf_distinct [OF assms(3)]
      entriesOf_keyOrdered [OF assms(4)]
    by simp
  from assms(5) obtain m where
    "new_BaseError U trace (length h) (h @ [plain (map (\<lambda>(k, v). field k v) (entriesOf (own ob)))]) m
        (Ref (length h)) = (Inr r, h')"
    unfolding fromCatch_object [OF assms(1,2)] meta
    by (cases "if HasProperty ob (Name ''message'') then Inr (Get ob (Name ''message''))
           else JSON_stringify U h (Ref a)") auto
  then show ?thesis
    by (rule new_BaseError_metadata)
qed

text \<open>The \<^verbatim>\<open>Error\<close> with a \<^verbatim>\<open>code\<close>, a \<^verbatim>\<open>context\<close> object and a symbol-keyed property: the
  metadata holds \<^verbatim>\<open>code\<close> and \<^verbatim>\<open>context\<close> only, not the non-enumerable \<^verbatim>\<open>stack\<close> and
  \<^verbatim>\<open>message\<close> nor the symbol; \<^verbatim>\<open>context\<close> is the reference to the object at address 8,
  which is as it was.\<close>

theorem fromCatch_metadata_provenance_witness:
  "lookup h_extra 7 = Some o_extra
   \<and> \<not> instanceof_BaseError h_extra (Ref 7)
   \<and> distinct (map key (own o_extra))
   \<and> keyOrdered (map key (own o_extra))
   \<and> fromCatch objectText None h_extra (Ref 7)
       = (Inr (Ref 10), snd (fromCatch objectText None h_extra (Ref 7)))
   \<and> GetV (snd (fromCatch objectText None h_extra (Ref 7))) (Ref 10) (Name ''metadata'')
       = Inr (Ref 9)
   \<and> lookup (snd (fromCatch objectText None h_extra (Ref 7))) 9
       = Some (plain [field ''code'' (Str ''ERR_CUSTOM''), field ''context'' (Ref 8)])
   \<and> lookup (snd (fromCatch objectText None h_extra (Ref 7))) 8
       = Some (plain [field ''userId'' (Num (Finite ''123''))])"
proof -
  have l: "lookup h_extra 7 = Some o_extra"
    by code_simp
  have i: "\<not> instanceof_BaseError h_extra (Ref 7)"
    by code_simp
  have d: "distinct (map key (own o_extra))"
    by code_simp
  have o: "keyOrdered (map key (own o_extra))"
    by code_simp
  have r: "fromCatch objectText None h_extra (Ref 7)
       = (Inr (Ref 10), snd (fromCatch objectText None h_extra (Ref 7)))"
    by code_simp
  have n: "length h_extra = 9"
    by code_simp
  have e: "map (\<lambda>(k, v). field k v) (entriesOf (own o_extra))
      = [field ''code'' (Str ''ERR_CUSTOM''), field ''context'' (Ref 8)]"
    by code_simp
  have c: "lookup (snd (fromCatch objectText None h_extra (Ref 7))) 8
       = Some (plain [field ''userId'' (Num (Finite ''123''))])"
    by code_simp
  from fromCatch_metadata_provenance [OF l i d o r] l i d o r c show ?thesis
    by (simp add: n e)
qed

subsection \<open>C10: the name of the result\<close>

text \<open>
  Claim C10. For every input that is no \<^verbatim>\<open>BaseError\<close> and on which \<^verbatim>\<open>fromCatch\<close>
  returns, the \<^verbatim>\<open>name\<close> of the result is \<^verbatim>\<open>"BaseError"\<close>, whatever the input's kind or
  \<^verbatim>\<open>name\<close> was: the class field sets it, and the input's name reaches the result only as
  a metadata entry, when it was an own enumerable property.
\<close>

theorem fromCatch_result_is_named_BaseError:
  assumes "\<not> instanceof_BaseError h v" and "fromCatch U trace h v = (Inr r, h')"
  shows "GetV h' r (Name ''name'') = Inr (Str ''BaseError'')"
proof (cases v)
  case (Ref a)
  with assms obtain ob where ob: "lookup h a = Some ob"
    by (auto simp add: fromCatch_def split: option.splits)
  have new: "new_BaseError U trace vis h1 m (Ref k) = (Inr r, h')
      \<Longrightarrow> GetV h' r (Name ''name'') = Inr (Str ''BaseError'')" for vis h1 m k
    by (auto simp add: new_BaseError_Ref lookup_def Get_def findProp_defineProp_same
        findProp_defineProp_other length_applyWrites nth_append split: sum.splits if_splits)
  from assms Ref ob show ?thesis
    by (auto simp add: fromCatch_object [OF ob] split: sum.splits if_splits dest: new)
qed (use assms in \<open>simp_all add: fromCatch_def\<close>)

text \<open>A \<^verbatim>\<open>TypeError\<close>, whose name is its prototype's, and a plain object with an own
  \<^verbatim>\<open>name\<close>: both results are named \<^verbatim>\<open>"BaseError"\<close>; the first has empty metadata, the
  second keeps \<^verbatim>\<open>'ValidationError'\<close> as \<^verbatim>\<open>metadata.name\<close>.\<close>

theorem fromCatch_result_is_named_BaseError_witness:
  "\<not> instanceof_BaseError h_typeerror (Ref 8)
   \<and> GetV h_typeerror (Ref 8) (Name ''name'') = Inr (Str ''TypeError'')
   \<and> fromCatch objectText None h_typeerror (Ref 8)
       = (Inr (Ref 10), snd (fromCatch objectText None h_typeerror (Ref 8)))
   \<and> GetV (snd (fromCatch objectText None h_typeerror (Ref 8))) (Ref 10) (Name ''name'')
       = Inr (Str ''BaseError'')
   \<and> lookup (snd (fromCatch objectText None h_typeerror (Ref 8))) 9 = Some (plain [])
   \<and> \<not> instanceof_BaseError h_named (Ref 7)
   \<and> fromCatch objectText None h_named (Ref 7)
       = (Inr (Ref 9), snd (fromCatch objectText None h_named (Ref 7)))
   \<and> GetV (snd (fromCatch objectText None h_named (Ref 7))) (Ref 9) (Name ''name'')
       = Inr (Str ''BaseError'')
   \<and> GetV (snd (fromCatch objectText None h_named (Ref 7))) (Ref 8) (Name ''name'')
       = Inr (Str ''ValidationError'')"
proof -
  have i: "\<not> instanceof_BaseError h_typeerror (Ref 8)"
    by code_simp
  have r: "fromCatch objectText None h_typeerror (Ref 8)
       = (Inr (Ref 10), snd (fromCatch objectText None h_typeerror (Ref 8)))"
    by code_simp
  have i': "\<not> instanceof_BaseError h_named (Ref 7)"
    by code_simp
  have r': "fromCatch objectText None h_named (Ref 7)
       = (Inr (Ref 9), snd (fromCatch objectText None h_named (Ref 7)))"
    by code_simp
  have rest: "GetV h_typeerror (Ref 8) (Name ''name'') = Inr (Str ''TypeError'')
    \<and> lookup (snd (fromCatch objectText None h_typeerror (Ref 8))) 9 = Some (plain [])
    \<and> GetV (snd (fromCatch objectText None h_named (Ref 7))) (Ref 8) (Name ''name'')
       = Inr (Str ''ValidationError'')"
    by code_simp
  from fromCatch_result_is_named_BaseError [OF i r]
    fromCatch_result_is_named_BaseError [OF i' r'] i r i' r' rest
  show ?thesis by simp
qed

subsection \<open>C7: the text of an error\<close>





text \<open>A number among the metadata is written as \<^verbatim>\<open>Number::toString\<close> writes it:
  \<^verbatim>\<open>new BaseError('Test error', { a: 1e21 }).toString()\<close>.\<close>

lemma toString_large_number:
  "toString objectText h_big 8 = Inr ''BaseError (message: Test error a:1e+21)''"
  by code_simp

text \<open>The older copies of the method give another line for the same error, with the
  parenthesis closed after the message and a space at the end; the package's test
  expects the line above.\<close>

lemma toString_old_closes_early:
  "toString_old objectText h_test 8 = Inr ''BaseError (message: Test error) ''"
  by code_simp

subsection \<open>C6: the structured output\<close>

lemma findProp_foldl_defineProp:
  assumes "distinct (map key ys)" and "\<forall>p\<in>set ys. enumerable p"
  shows "findProp k (foldl (\<lambda>t p. defineProp (key p) (val p) t) t0 ys)
    = (case findProp k ys of Some p \<Rightarrow> Some p | None \<Rightarrow> findProp k t0)"
  using assms
proof (induction ys arbitrary: t0)
  case Nil
  then show ?case by simp
next
  case (Cons y ys)
  from Cons.prems have d: "distinct (map key ys)" and e: "\<forall>p\<in>set ys. enumerable p"
    and fresh: "key y \<notin> key ` set ys" and ey: "enumerable y"
    by auto
  have step: "findProp k (foldl (\<lambda>t p. defineProp (key p) (val p) t)
        (defineProp (key y) (val y) t0) ys)
      = (case findProp k ys of Some p \<Rightarrow> Some p
         | None \<Rightarrow> findProp k (defineProp (key y) (val y) t0))"
    by (rule Cons.IH [OF d e])
  show ?case
  proof (cases "key y = k")
    case True
    with fresh have "findProp k ys = None"
      by (simp add: findProp_None)
    with True ey step show ?thesis
      by (simp add: findProp_defineProp_same)
  next
    case False
    with step show ?thesis
      by (simp add: findProp_defineProp_other split: option.splits)
  qed
qed

text \<open>A spread writes each enumerable own property of its source over the target.\<close>

lemma findProp_copyProps:
  assumes "distinct (map key src)"
  shows "findProp k (copyProps src t0)
    = (case findProp k (filter enumerable src) of Some p \<Rightarrow> Some p | None \<Rightarrow> findProp k t0)"
  unfolding copyProps_def
  by (rule findProp_foldl_defineProp) (use assms in \<open>simp_all add: distinct_map_filter\<close>)

text \<open>An error fresh from the constructor has no \<^verbatim>\<open>cause\<close>, own or inherited.\<close>

lemma new_BaseError_fresh:
  assumes "new_BaseError U trace vis h message metadata0 = (Inr (Ref e), h')"
  shows "\<exists>ob. lookup h' e = Some ob \<and> Get ob (Name ''cause'') = Undefined"
  using assms
  by (auto simp add: new_BaseError_def alloc_def Let_def lookup_def Get_def nth_append
      findProp_defineProp_other hidden_def BaseError_chain_def BaseError_methods_def
      Error_chain_def Error_props_def length_applyWrites
      split: sum.splits if_splits option.splits)

text \<open>
  Claim C6. For every error whose \<^verbatim>\<open>metadata\<close> is an object (its keys distinct, as the
  keys of an object are), \<^verbatim>\<open>toJSON\<close> returns a new flat object \<open>out\<close> that holds the four
  fixed keys: \<^verbatim>\<open>name\<close> and \<^verbatim>\<open>message\<close> with the error's own values, \<^verbatim>\<open>stack\<close> with the
  error's stack or \<^verbatim>\<open>''\<close> when it has none, \<^verbatim>\<open>cause\<close> with the error's cause or
  \<^verbatim>\<open>'Unknown Cause'\<close> when it has none (as an error fresh from the constructor has none);
  under every other key it holds exactly the metadata's enumerable entry of that key. The
  fixed keys are written after the spread, so a metadata entry named like one of them
  does not reach the output: the error's own field does. (The code's key for the stack
  trace is \<^verbatim>\<open>stack\<close>.)
\<close>

theorem toJSON_structured_output:
  assumes "lookup h this = Some ob" and "Get ob (Name ''metadata'') = Ref m"
    and "lookup h m = Some mo" and "distinct (map key (own mo))"
  shows "\<exists>out. toJSON h this = (Inr (Ref (length h)), h @ [plain out])
    \<and> findProp (Name ''name'') out = Some (field ''name'' (Get ob (Name ''name'')))
    \<and> findProp (Name ''message'') out = Some (field ''message'' (Get ob (Name ''message'')))
    \<and> findProp (Name ''stack'') out
        = Some (field ''stack''
            (if Get ob (Name ''stack'') = Undefined \<or> Get ob (Name ''stack'') = Null
             then Str [] else Get ob (Name ''stack'')))
    \<and> findProp (Name ''cause'') out
        = Some (field ''cause''
            (if Get ob (Name ''cause'') = Undefined \<or> Get ob (Name ''cause'') = Null
             then Str ''Unknown Cause'' else Get ob (Name ''cause'')))
    \<and> (\<forall>k. k \<notin> {Name ''name'', Name ''message'', Name ''stack'', Name ''cause''} \<longrightarrow>
          findProp k out = findProp k (filter enumerable (own mo)))"
proof -
  let ?ps = "copyProps (own mo) []"
  let ?out = "defineProp (Name ''cause'')
                (coalesce (Get ob (Name ''cause'')) (Str ''Unknown Cause''))
              (defineProp (Name ''stack'') (coalesce (Get ob (Name ''stack'')) (Str []))
              (defineProp (Name ''message'') (Get ob (Name ''message''))
              (defineProp (Name ''name'') (Get ob (Name ''name'')) ?ps)))"
  have props: "toJSON_props h ob = Inr ?out"
    using assms(2,3) by (simp add: toJSON_props_def)
  have call: "toJSON h this = (Inr (Ref (length h)), h @ [plain ?out])"
    using assms(1) props by (simp add: toJSON_def alloc_def)
  have rest: "findProp k ?out = findProp k (filter enumerable (own mo))"
    if "k \<notin> {Name ''name'', Name ''message'', Name ''stack'', Name ''cause''}" for k
    using that findProp_copyProps [OF assms(4), of k "[]"]
    by (simp add: findProp_defineProp_other split: option.splits)
  have name: "findProp (Name ''name'') ?out = Some (field ''name'' (Get ob (Name ''name'')))"
    by (simp add: findProp_defineProp_same findProp_defineProp_other field_def)
  have message: "findProp (Name ''message'') ?out
      = Some (field ''message'' (Get ob (Name ''message'')))"
    by (simp add: findProp_defineProp_same findProp_defineProp_other field_def)
  have stack: "findProp (Name ''stack'') ?out
      = Some (field ''stack''
          (if Get ob (Name ''stack'') = Undefined \<or> Get ob (Name ''stack'') = Null
           then Str [] else Get ob (Name ''stack'')))"
    by (simp add: findProp_defineProp_same findProp_defineProp_other field_def coalesce_def)
  have cause: "findProp (Name ''cause'') ?out
      = Some (field ''cause''
          (if Get ob (Name ''cause'') = Undefined \<or> Get ob (Name ''cause'') = Null
           then Str ''Unknown Cause'' else Get ob (Name ''cause'')))"
    by (simp add: findProp_defineProp_same field_def coalesce_def)
  from call name message stack cause rest show ?thesis
    by blast
qed

text \<open>The error of the test, \<^verbatim>\<open>new BaseError('Test error', { userId: 123, requestId:
  'abc-123' })\<close>, fresh from the constructor: the output is the object the test expects.
  And the error whose metadata has a \<^verbatim>\<open>message\<close> of its own: the output's \<^verbatim>\<open>message\<close> is
  the error's, \<^verbatim>\<open>'Test'\<close>.\<close>

theorem toJSON_structured_output_witness:
  "lookup h_user 8 = Some (h_user ! 8)
   \<and> Get (h_user ! 8) (Name ''metadata'') = Ref 7
   \<and> lookup h_user 7 = Some o_user
   \<and> distinct (map key (own o_user))
   \<and> (\<exists>out. toJSON h_user 8 = (Inr (Ref 9), h_user @ [plain out])
        \<and> findProp (Name ''cause'') out = Some (field ''cause'' (Str ''Unknown Cause'')))
   \<and> toJSON h_user 8
       = (Inr (Ref 9),
          h_user @ [plain [field ''userId'' (Num (Finite ''123'')), field ''requestId'' (Str ''abc-123''),
            field ''name'' (Str ''BaseError''), field ''message'' (Str ''Test error''),
            field ''stack'' (Str ''BaseError: Test error''),
            field ''cause'' (Str ''Unknown Cause'')]])
   \<and> fst (toJSON h_collide 8) = Inr (Ref 9)
   \<and> lookup (snd (toJSON h_collide 8)) 9
       = Some (plain [field ''message'' (Str ''Test''), field ''path'' (Str ''/api/users''),
            field ''name'' (Str ''BaseError''), field ''stack'' (Str ''BaseError: Test''),
            field ''cause'' (Str ''Unknown Cause'')])"
proof -
  have l: "lookup h_user 8 = Some (h_user ! 8)"
    by code_simp
  have g: "Get (h_user ! 8) (Name ''metadata'') = Ref 7"
    by code_simp
  have l': "lookup h_user 7 = Some o_user"
    by code_simp
  have d: "distinct (map key (own o_user))"
    by code_simp
  have n: "length h_user = 9"
    by code_simp
  have c: "Get (h_user ! 8) (Name ''cause'') = Undefined"
    by code_simp
  have ex: "\<exists>out. toJSON h_user 8 = (Inr (Ref 9), h_user @ [plain out])
        \<and> findProp (Name ''cause'') out = Some (field ''cause'' (Str ''Unknown Cause''))"
    using toJSON_structured_output [OF l g l' d] by (auto simp add: n c)
  have user: "toJSON h_user 8
       = (Inr (Ref 9),
          h_user @ [plain [field ''userId'' (Num (Finite ''123'')), field ''requestId'' (Str ''abc-123''),
            field ''name'' (Str ''BaseError''), field ''message'' (Str ''Test error''),
            field ''stack'' (Str ''BaseError: Test error''),
            field ''cause'' (Str ''Unknown Cause'')]])"
    by code_simp
  have collide1: "fst (toJSON h_collide 8) = Inr (Ref 9)"
    by code_simp
  have collide2: "lookup (snd (toJSON h_collide 8)) 9
       = Some (plain [field ''message'' (Str ''Test''), field ''path'' (Str ''/api/users''),
            field ''name'' (Str ''BaseError''), field ''stack'' (Str ''BaseError: Test''),
            field ''cause'' (Str ''Unknown Cause'')])"
    by code_simp
  show ?thesis
    by (intro conjI) (rule l g l' d ex user collide1 collide2)+
qed

subsection \<open>The keys of the objects a program builds\<close>

text \<open>The theorems on the metadata take the keys of an object distinct and in the order
  of \<^verbatim>\<open>[[OwnPropertyKeys]]\<close>. Defining a property keeps both, so every object built by a
  literal, a spread or the constructor has them.\<close>

lemma digitsLess_irrefl: "\<not> digitsLess s s"
  by (induction s) auto

lemma digitsLess_trans:
  "length a = length b \<Longrightarrow> length b = length c \<Longrightarrow>
    digitsLess a b \<Longrightarrow> digitsLess b c \<Longrightarrow> digitsLess a c"
  by (induction a b c rule: list_induct3) auto

lemma indexLess_irrefl: "\<not> indexLess s s"
  by (simp add: indexLess_def digitsLess_irrefl)

lemma indexLess_trans: "indexLess a b \<Longrightarrow> indexLess b c \<Longrightarrow> indexLess a c"
  by (auto simp add: indexLess_def intro: digitsLess_trans)

lemma precedes_irrefl: "\<not> precedes k k"
  by (cases k) (simp_all add: indexLess_irrefl)

lemma precedes_trans: "precedes a b \<Longrightarrow> precedes b c \<Longrightarrow> precedes a c"
  by (cases a; cases b; cases c) (auto intro: indexLess_trans split: if_splits)

lemma defineProp_keys_present:
  "findProp k ps \<noteq> None \<Longrightarrow> map key (defineProp k v ps) = map key ps"
  by (induction ps) (auto simp add: defineProp.simps split: if_splits)

lemma defineProp_keys_fresh:
  "findProp k ps = None \<Longrightarrow> set (map key (defineProp k v ps)) = insert k (set (map key ps))"
  by (induction ps) (auto simp add: defineProp.simps split: if_splits)

lemma findProp_None_iff: "findProp k ps = None \<longleftrightarrow> k \<notin> key ` set ps"
  by (induction ps) auto

lemma defineProp_distinct:
  "distinct (map key ps) \<Longrightarrow> distinct (map key (defineProp k v ps))"
proof (induction ps)
  case Nil
  then show ?case by (simp add: defineProp.simps)
next
  case (Cons p ps)
  show ?case
  proof (cases "findProp k (p # ps) = None")
    case True
    then have fresh: "findProp k ps = None" and ne: "key p \<noteq> k"
      by (auto split: if_splits)
    from Cons fresh ne True show ?thesis
      using defineProp_keys_fresh [OF fresh, of v]
      by (auto simp add: defineProp.simps findProp_None_iff)
  next
    case False
    then show ?thesis
      using Cons.prems defineProp_keys_present [OF False, of v] by simp
  qed
qed

lemma defineProp_keyOrdered:
  "keyOrdered (map key ps) \<Longrightarrow> keyOrdered (map key (defineProp k v ps))"
proof (induction ps)
  case Nil
  then show ?case by (simp add: defineProp.simps keyOrdered_def)
next
  case (Cons p ps)
  from Cons.prems have tl: "keyOrdered (map key ps)"
    and hd: "\<forall>k'\<in>key ` set ps. \<not> precedes k' (key p)"
    by (auto simp add: keyOrdered_def)
  show ?case
  proof (cases "findProp k (p # ps) = None")
    case False
    then show ?thesis
      using Cons.prems defineProp_keys_present [OF False, of v] by simp
  next
    case True
    then have fresh: "findProp k ps = None" and ne: "key p \<noteq> k"
      by (auto split: if_splits)
    show ?thesis
    proof (cases "precedes k (key p)")
      case True
      have "\<not> precedes (key p) k"
        using True precedes_trans precedes_irrefl by blast
      moreover have "\<forall>k'\<in>key ` set ps. \<not> precedes k' k"
        using True hd precedes_trans by blast
      ultimately show ?thesis
        using Cons.prems True fresh ne
        by (auto simp add: defineProp.simps keyOrdered_def)
    next
      case False
      have "\<forall>k'\<in>set (map key (defineProp k v ps)). \<not> precedes k' (key p)"
        using False hd defineProp_keys_fresh [OF fresh, of v] by auto
      with False ne Cons.IH [OF tl] show ?thesis
        by (auto simp add: defineProp.simps keyOrdered_def)
    qed
  qed
qed

lemma literal_wellformed:
  "distinct (map key (literal kvs)) \<and> keyOrdered (map key (literal kvs))"
proof -
  have "distinct (map key ps) \<and> keyOrdered (map key ps) \<Longrightarrow>
      distinct (map key (foldl (\<lambda>ps kv. defineProp (fst kv) (snd kv) ps) ps kvs))
      \<and> keyOrdered (map key (foldl (\<lambda>ps kv. defineProp (fst kv) (snd kv) ps) ps kvs))" for ps
    by (induction kvs arbitrary: ps) (simp_all add: defineProp_distinct defineProp_keyOrdered)
  from this [of "[]"] show ?thesis
    by (simp add: literal_def keyOrdered_def)
qed

end
